theory Spec2Isabelle
  imports Main
begin

section \<open>Values, sources and errors\<close>

text \<open>
  The values that travel along a wire: Python's \<open>None\<close> (floating), the booleans and the
  integers (\<open>_inputState\<close> counts \<open>1\<close> and \<open>0\<close> beside \<open>True\<close> and \<open>False\<close>).
\<close>

datatype pyval = PyNone | PyBool bool | PyInt int

text \<open>
  A source is a zero-argument callable: either the closure \<open>lambda: val\<close> that wraps a
  constant, or a device object, called through \<open>__call__\<close>. Devices live in a store and are
  named by their address, so that two gates can hold each other.
\<close>

type_synonym addr = nat

datatype source = Thunk pyval | Dev addr

text \<open>What client code hands to \<open>In\<close>, \<open>Enable\<close> and \<open>SetInput\<close>: a constant or a callable.\<close>

datatype pyobj = Const pyval | Callable source

text \<open>An attribute that holds either one object or a sequence (list, tuple) of objects.\<close>

datatype 'a pyarg = Single 'a | Sequence "'a list"

datatype error = TypeError | ValueError | KeyError | IndexError | AttributeError | RecursionError

datatype cls = BoolNOT | BoolAND | BoolNOR | BoolNAND | BoolSRFF | BoolJKFF | TestDevice

record device =
  cls :: cls
  input :: "source list"
  enable :: source
  indict :: "string \<rightharpoonup> source"
  ingetvalue :: bool
  lastget :: pyval
  IC1 :: "addr option"
  IC2 :: "addr option"
  ICJ :: "addr option"
  ICK :: "addr option"
  InputNames :: "string list"

type_synonym heap = "addr \<Rightarrow> device"

type_synonym 'a result = "(error + 'a) \<times> heap"

text \<open>The way a callee is invoked: \<open>v()\<close> on a source \<open>v\<close>, in a store.\<close>

type_synonym caller = "source \<Rightarrow> heap \<Rightarrow> pyval result"

text \<open>Python's \<open>==\<close> on these values: \<open>True == 1\<close> and \<open>False == 0\<close>; \<open>None\<close> equals only itself.\<close>

fun py_eq :: "pyval \<Rightarrow> pyval \<Rightarrow> bool" where
  "py_eq PyNone PyNone = True"
| "py_eq (PyBool a) (PyBool b) = (a = b)"
| "py_eq (PyInt i) (PyInt j) = (i = j)"
| "py_eq (PyBool a) (PyInt j) = ((if a then 1 else 0) = j)"
| "py_eq (PyInt i) (PyBool b) = (i = (if b then 1 else 0))"
| "py_eq _ _ = False"

text \<open>\<open>list.count\<close>.\<close>

definition py_count :: "pyval list \<Rightarrow> pyval \<Rightarrow> nat" where
  "py_count xs x = length (filter (\<lambda>y. py_eq y x) xs)"

text \<open>Truth value of a result, as \<open>if\<close> and \<open>not\<close> test it.\<close>

fun truthy :: "pyval \<Rightarrow> bool" where
  "truthy PyNone = False"
| "truthy (PyBool b) = b"
| "truthy (PyInt i) = (i \<noteq> 0)"

text \<open>
  Truth value of a source object itself. A function object is true; so is an instance of a
  class that defines neither \<open>__bool__\<close> nor \<open>__len__\<close>, as the device classes do.
\<close>

fun object_truthy :: "source \<Rightarrow> bool" where
  "object_truthy (Thunk v) = True"
| "object_truthy (Dev a) = True"

text \<open>
  Modelled from the spec: \<open>_MathDynamic.Eval\<close>, which \<open>gglogic\<close> inherits from \<open>ggmath\<close> and
  whose body is not among the sources. The spec describes it as the total conversion of the
  accepted shapes (a constant, or a callable returning a signal) into a source; the code
  calls every result (\<open>v()\<close>, \<open>self._indict[i]()\<close>), so a constant becomes a closure.
\<close>

fun Eval :: "pyobj \<Rightarrow> source" where
  "Eval (Const v) = Thunk v"
| "Eval (Callable s) = s"

section \<open>The recursion trap\<close>

text \<open>
  \<open>recursiontrap(handler)\<close> returns \<open>trapmagic\<close>. An exception in the handler leaves the
  function before \<open>lastget\<close> and \<open>ingetvalue\<close> are written.
\<close>

definition recursiontrap ::
  "(addr \<Rightarrow> heap \<Rightarrow> pyval result) \<Rightarrow> addr \<Rightarrow> heap \<Rightarrow> pyval result" where
  "recursiontrap handler self h =
     (if \<not> ingetvalue (h self) then
        (let h1 = h(self := (h self)\<lparr>ingetvalue := True\<rparr>) in
         case handler self h1 of
           (Inl e, h2) \<Rightarrow> (Inl e, h2)
         | (Inr r, h2) \<Rightarrow>
             (let h3 = h2(self := (h2 self)\<lparr>lastget := r\<rparr>);
                  h4 = h3(self := (h3 self)\<lparr>ingetvalue := False\<rparr>)
              in (Inr (lastget (h4 self)), h4)))
      else
        (let h1 = h(self := (h self)\<lparr>ingetvalue := False\<rparr>)
         in (Inr (lastget (h1 self)), h1)))"

section \<open>The device base class\<close>

text \<open>The setter of \<open>In\<close>: \<open>list(val)\<close> raises \<open>TypeError\<close> on a value that is no sequence.\<close>

definition In_setter :: "addr \<Rightarrow> pyobj pyarg \<Rightarrow> heap \<Rightarrow> heap" where
  "In_setter self val h =
     (case val of
        Sequence vs \<Rightarrow> h(self := (h self)\<lparr>input := map Eval vs\<rparr>)
      | Single v \<Rightarrow> h(self := (h self)\<lparr>input := [Eval v]\<rparr>))"

definition Enable_setter :: "addr \<Rightarrow> pyobj \<Rightarrow> heap \<Rightarrow> heap" where
  "Enable_setter self val h = h(self := (h self)\<lparr>enable := Eval val\<rparr>)"

text \<open>The list comprehension \<open>[v() for v in inputs]\<close>.\<close>

fun call_each :: "caller \<Rightarrow> source list \<Rightarrow> heap \<Rightarrow> (pyval list) result" where
  "call_each invoke [] h = (Inr [], h)"
| "call_each invoke (v # vs) h =
     (case invoke v h of
        (Inl e, h1) \<Rightarrow> (Inl e, h1)
      | (Inr x, h1) \<Rightarrow>
          (case call_each invoke vs h1 of
             (Inl e, h2) \<Rightarrow> (Inl e, h2)
           | (Inr xs, h2) \<Rightarrow> (Inr (x # xs), h2)))"

text \<open>
  \<open>_inputState\<close>. \<open>[].extend(value)\<close> raises \<open>TypeError\<close> on a value that is not iterable (a
  closure, a device), and then \<open>inputs = [value]\<close>; on a sequence it extends the fresh list
  and returns \<open>None\<close>, so \<open>inputs\<close> is \<open>None\<close> and the comprehension over it raises
  \<open>TypeError\<close>, outside the \<open>try\<close>.
\<close>

definition inputState :: "caller \<Rightarrow> source pyarg \<Rightarrow> heap \<Rightarrow> pyval result" where
  "inputState invoke val h =
     (let inputs = (case val of Sequence vs \<Rightarrow> None | Single v \<Rightarrow> Some [v]) in
      case inputs of
        None \<Rightarrow> (Inl TypeError, h)
      | Some vs \<Rightarrow>
          (case call_each invoke vs h of
             (Inl e, h1) \<Rightarrow> (Inl e, h1)
           | (Inr scalars, h1) \<Rightarrow>
               (let ones = py_count scalars (PyBool True) + py_count scalars (PyInt 1);
                    zeros = py_count scalars (PyBool False) + py_count scalars (PyInt 0)
                in if ones > 0 \<and> zeros > 0 then (Inl ValueError, h1)
                   else if ones > 0 then (Inr (PyBool True), h1)
                   else if zeros > 0 then (Inr (PyBool False), h1)
                   else (Inr PyNone, h1))))"

text \<open>\<open>_BoolDevice.SetInput\<close>.\<close>

definition BoolDevice_SetInput :: "addr \<Rightarrow> string \<Rightarrow> pyobj \<Rightarrow> heap \<Rightarrow> heap" where
  "BoolDevice_SetInput self inputname reference h =
     h(self := (h self)\<lparr>indict := (indict (h self))(inputname \<mapsto> Eval reference)\<rparr>)"

text \<open>\<open>GetInput\<close>: a name that is not a key of \<open>_indict\<close> raises \<open>KeyError\<close>.\<close>

definition GetInput :: "caller \<Rightarrow> addr \<Rightarrow> string \<Rightarrow> heap \<Rightarrow> pyval result" where
  "GetInput invoke self inputname h =
     (case indict (h self) inputname of
        None \<Rightarrow> (Inl KeyError, h)
      | Some v \<Rightarrow> inputState invoke (Single v) h)"

text \<open>
  \<open>_BoolDevice.__init__\<close>, with the class of the object being built. The attributes of
  the composite classes are absent until their own constructors set them.
\<close>

definition BoolDevice_init :: "cls \<Rightarrow> nat \<Rightarrow> string list \<Rightarrow> device" where
  "BoolDevice_init c mininputqty namedinputs =
     \<lparr>cls = c,
      input = map Eval (replicate mininputqty (Const PyNone)),
      enable = Eval (Const (PyBool True)),
      indict = map_of (map (\<lambda>name. (name, Eval (Const PyNone))) namedinputs),
      ingetvalue = False,
      lastget = PyNone,
      IC1 = None, IC2 = None, ICJ = None, ICK = None,
      InputNames = []\<rparr>"

section \<open>Gates\<close>

text \<open>The bodies of the four \<open>_getvalue\<close> methods, before the decorator wraps them.\<close>

definition BoolNOT_handler :: "caller \<Rightarrow> addr \<Rightarrow> heap \<Rightarrow> pyval result" where
  "BoolNOT_handler invoke self h =
     (case input (h self) of
        [] \<Rightarrow> (Inl IndexError, h)
      | v # _ \<Rightarrow>
          (case inputState invoke (Single v) h of
             (Inl e, h1) \<Rightarrow> (Inl e, h1)
           | (Inr inval, h1) \<Rightarrow>
               (if py_eq inval PyNone then (Inr (PyBool True), h1)
                else (Inr (PyBool (\<not> truthy inval)), h1))))"

fun BoolAND_loop :: "caller \<Rightarrow> source list \<Rightarrow> heap \<Rightarrow> pyval result" where
  "BoolAND_loop invoke [] h = (Inr (PyBool True), h)"
| "BoolAND_loop invoke (v # vs) h =
     (case inputState invoke (Single v) h of
        (Inl e, h1) \<Rightarrow> (Inl e, h1)
      | (Inr x, h1) \<Rightarrow>
          (if \<not> truthy x then (Inr (PyBool False), h1) else BoolAND_loop invoke vs h1))"

fun BoolNOR_loop :: "caller \<Rightarrow> source list \<Rightarrow> heap \<Rightarrow> pyval result" where
  "BoolNOR_loop invoke [] h = (Inr (PyBool True), h)"
| "BoolNOR_loop invoke (v # vs) h =
     (case inputState invoke (Single v) h of
        (Inl e, h1) \<Rightarrow> (Inl e, h1)
      | (Inr x, h1) \<Rightarrow>
          (if truthy x then (Inr (PyBool False), h1) else BoolNOR_loop invoke vs h1))"

fun BoolNAND_loop :: "caller \<Rightarrow> source list \<Rightarrow> heap \<Rightarrow> pyval result" where
  "BoolNAND_loop invoke [] h = (Inr (PyBool False), h)"
| "BoolNAND_loop invoke (v # vs) h =
     (case inputState invoke (Single v) h of
        (Inl e, h1) \<Rightarrow> (Inl e, h1)
      | (Inr x, h1) \<Rightarrow>
          (if \<not> truthy x then (Inr (PyBool True), h1) else BoolNAND_loop invoke vs h1))"

definition BoolAND_handler :: "caller \<Rightarrow> addr \<Rightarrow> heap \<Rightarrow> pyval result" where
  "BoolAND_handler invoke self h = BoolAND_loop invoke (input (h self)) h"

definition BoolNOR_handler :: "caller \<Rightarrow> addr \<Rightarrow> heap \<Rightarrow> pyval result" where
  "BoolNOR_handler invoke self h = BoolNOR_loop invoke (input (h self)) h"

definition BoolNAND_handler :: "caller \<Rightarrow> addr \<Rightarrow> heap \<Rightarrow> pyval result" where
  "BoolNAND_handler invoke self h = BoolNAND_loop invoke (input (h self)) h"

text \<open>\<open>self.IC1()\<close> and \<open>self.IC2()\<close> of the two flip-flop classes.\<close>

definition call_attr :: "caller \<Rightarrow> addr option \<Rightarrow> heap \<Rightarrow> pyval result" where
  "call_attr invoke ic h =
     (case ic of None \<Rightarrow> (Inl AttributeError, h) | Some a \<Rightarrow> invoke (Dev a) h)"

text \<open>
  \<open>self._getvalue()\<close>, dispatched on the class of \<open>self\<close>. The four gates carry the
  decorator; the flip-flops and \<open>TestDevice\<close> override \<open>_getvalue\<close> without it.
\<close>

definition getvalue :: "caller \<Rightarrow> addr \<Rightarrow> heap \<Rightarrow> pyval result" where
  "getvalue invoke self h =
     (case cls (h self) of
        BoolNOT \<Rightarrow> recursiontrap (BoolNOT_handler invoke) self h
      | BoolAND \<Rightarrow> recursiontrap (BoolAND_handler invoke) self h
      | BoolNOR \<Rightarrow> recursiontrap (BoolNOR_handler invoke) self h
      | BoolNAND \<Rightarrow> recursiontrap (BoolNAND_handler invoke) self h
      | BoolSRFF \<Rightarrow> call_attr invoke (IC1 (h self)) h
      | BoolJKFF \<Rightarrow> call_attr invoke (IC1 (h self)) h
      | TestDevice \<Rightarrow> (Inr PyNone, h))"

text \<open>\<open>_BoolDevice.__call__\<close>: the test is on the object held in \<open>_enable\<close>.\<close>

definition device_call :: "caller \<Rightarrow> addr \<Rightarrow> heap \<Rightarrow> pyval result" where
  "device_call invoke self h =
     (if object_truthy (enable (h self)) then getvalue invoke self h else (Inr PyNone, h))"

text \<open>
  Calling a source. The first argument bounds the depth of nested device calls, as the
  interpreter's recursion limit does; at the bound the call raises \<open>RecursionError\<close>.
\<close>

primrec call :: "nat \<Rightarrow> source \<Rightarrow> heap \<Rightarrow> pyval result" where
  "call 0 s h = (case s of Thunk v \<Rightarrow> (Inr v, h) | Dev a \<Rightarrow> (Inl RecursionError, h))"
| "call (Suc n) s h = (case s of Thunk v \<Rightarrow> (Inr v, h) | Dev a \<Rightarrow> device_call (call n) a h)"

section \<open>Constructors\<close>

text \<open>
  \<open>_BoolOneInput.__init__\<close> and \<open>_BoolMultiInput.__init__\<close> pass 1 and 2 as the minimum
  number of inputs; each concrete class inherits one of the two.
\<close>

fun mininputqty :: "cls \<Rightarrow> nat" where
  "mininputqty BoolAND = 2"
| "mininputqty BoolNOR = 2"
| "mininputqty BoolNAND = 2"
| "mininputqty c = 1"

text \<open>
  The object that the constructor of a gate class (\<open>BoolNOT\<close>, \<open>BoolAND\<close>, \<open>BoolNOR\<close>,
  \<open>BoolNAND\<close>) builds: these classes add nothing to the constructor of their base, which
  gets the minimum of the class and no named inputs.
\<close>

definition gate_init :: "cls \<Rightarrow> device" where
  "gate_init c = BoolDevice_init c (mininputqty c) []"

text \<open>
  Object identity: a constructor is given the addresses the allocator picked for the new
  objects; that they differ from each other is the allocator's guarantee.

  A gate class as a value that is called, \<open>gate()\<close>: it builds its object at the address
  it is given.
\<close>

definition new_gate :: "cls \<Rightarrow> addr \<Rightarrow> heap \<Rightarrow> heap" where
  "new_gate c a h = h(a := gate_init c)"

text \<open>
  \<open>BoolSRFF.__init__\<close>. \<open>gateclass\<close> is the optional keyword argument, by its docstring one
  of \<open>BoolNAND\<close> or \<open>BoolNOR\<close>; the constructor only calls it, twice, so it is taken as
  what it does when called.
\<close>

definition BoolSRFF_init ::
  "addr \<Rightarrow> addr \<Rightarrow> addr \<Rightarrow> (addr \<Rightarrow> heap \<Rightarrow> heap) option \<Rightarrow> heap \<Rightarrow> heap" where
  "BoolSRFF_init self a1 a2 gateclass h =
     (let h1 = h(self := BoolDevice_init BoolSRFF 1 [''R'', ''S'']);
          gate = (case gateclass of None \<Rightarrow> new_gate BoolNOR | Some g \<Rightarrow> g);
          h2 = gate a1 h1;
          h3 = h2(self := (h2 self)\<lparr>IC1 := Some a1\<rparr>);
          h4 = gate a2 h3;
          h5 = h4(self := (h4 self)\<lparr>IC2 := Some a2\<rparr>)
      in h5)"

text \<open>\<open>BoolJKFF.__init__\<close>.\<close>

definition BoolJKFF_init :: "addr \<Rightarrow> addr \<Rightarrow> addr \<Rightarrow> addr \<Rightarrow> addr \<Rightarrow> heap \<Rightarrow> heap" where
  "BoolJKFF_init self a1 a2 aj ak h =
     (let h1 = h(self := (BoolDevice_init BoolJKFF 1 [''J'', ''K'', ''CLK''])
                    \<lparr>InputNames := [''J'', ''K'', ''CLK'']\<rparr>);
          h2 = h1(a1 := gate_init BoolNAND);
          h3 = h2(self := (h2 self)\<lparr>IC1 := Some a1\<rparr>);
          h4 = h3(a2 := gate_init BoolNAND);
          h5 = h4(self := (h4 self)\<lparr>IC2 := Some a2\<rparr>);
          h6 = h5(aj := gate_init BoolNAND);
          h7 = h6(self := (h6 self)\<lparr>ICJ := Some aj\<rparr>);
          h8 = h7(ak := gate_init BoolNAND);
          h9 = h8(self := (h8 self)\<lparr>ICK := Some ak\<rparr>);
          h10 = In_setter a1 (Sequence [Callable (Dev aj), Callable (Dev a2)]) h9;
          h11 = In_setter a2 (Sequence [Callable (Dev ak), Callable (Dev a1)]) h10
      in h11)"

section \<open>Flip-flops\<close>

text \<open>\<open>BoolSRFF.SetInput\<close>.\<close>

definition BoolSRFF_SetInput :: "addr \<Rightarrow> string \<Rightarrow> pyobj \<Rightarrow> heap \<Rightarrow> unit result" where
  "BoolSRFF_SetInput self inputname reference h =
     (let h1 = BoolDevice_SetInput self inputname reference h in
      if inputname = ''R'' then
        (case (IC1 (h1 self), IC2 (h1 self)) of
           (Some a1, Some a2) \<Rightarrow>
             (Inr (), In_setter a1 (Sequence [reference, Callable (Dev a2)]) h1)
         | _ \<Rightarrow> (Inl AttributeError, h1))
      else if inputname = ''S'' then
        (case (IC2 (h1 self), IC1 (h1 self)) of
           (Some a2, Some a1) \<Rightarrow>
             (Inr (), In_setter a2 (Sequence [reference, Callable (Dev a1)]) h1)
         | _ \<Rightarrow> (Inl AttributeError, h1))
      else (Inr (), h1))"

text \<open>
  The loop of \<open>BoolJKFF.SetInput\<close> over \<open>InputNames\<close>: \<open>False\<close> when it leaves through
  \<open>return\<close> at a name whose source yields \<open>None\<close>, \<open>True\<close> when it runs to its end.
\<close>

fun BoolJKFF_scan :: "caller \<Rightarrow> addr \<Rightarrow> string list \<Rightarrow> heap \<Rightarrow> bool result" where
  "BoolJKFF_scan invoke self [] h = (Inr True, h)"
| "BoolJKFF_scan invoke self (i # names) h =
     (case indict (h self) i of
        None \<Rightarrow> (Inl KeyError, h)
      | Some v \<Rightarrow>
          (case invoke v h of
             (Inl e, h1) \<Rightarrow> (Inl e, h1)
           | (Inr x, h1) \<Rightarrow>
               (if x = PyNone then (Inr False, h1) else BoolJKFF_scan invoke self names h1)))"

text \<open>
  \<open>BoolJKFF.SetInput\<close>. After the loop the method prints the four objects, which changes
  nothing in the store; the two assignments to \<open>ICJ.In\<close> and \<open>ICK.In\<close> that follow in the
  source are comments.
\<close>

definition BoolJKFF_SetInput ::
  "caller \<Rightarrow> addr \<Rightarrow> string \<Rightarrow> pyobj \<Rightarrow> heap \<Rightarrow> unit result" where
  "BoolJKFF_SetInput invoke self inputname reference h =
     (let h1 = BoolDevice_SetInput self inputname reference h in
      case BoolJKFF_scan invoke self (InputNames (h1 self)) h1 of
        (Inl e, h2) \<Rightarrow> (Inl e, h2)
      | (Inr complete, h2) \<Rightarrow> (Inr (), h2))"

text \<open>The outputs \<open>Q()\<close> and \<open>Q_()\<close>, the same in both flip-flop classes (\<open>Q_\<close> is no name in
  Isabelle, so the second is \<open>Q_bar\<close>).\<close>

definition Q :: "caller \<Rightarrow> addr \<Rightarrow> heap \<Rightarrow> pyval result" where
  "Q invoke self h = getvalue invoke self h"

definition Q_bar :: "caller \<Rightarrow> addr \<Rightarrow> heap \<Rightarrow> pyval result" where
  "Q_bar invoke self h = call_attr invoke (IC2 (h self)) h"

text \<open>Statements in sequence: an exception in the first skips the second.\<close>

definition and_then :: "(heap \<Rightarrow> 'a result) \<Rightarrow> (heap \<Rightarrow> 'b result) \<Rightarrow> heap \<Rightarrow> 'b result" where
  "and_then f g h = (case f h of (Inl e, h1) \<Rightarrow> (Inl e, h1) | (Inr _, h1) \<Rightarrow> g h1)"

text \<open>
  A store to build circuits in. What its cells hold before a constructor writes to them is
  immaterial.
\<close>

definition heap0 :: heap where
  "heap0 = (\<lambda>_. BoolDevice_init TestDevice 1 [''in1'', ''in2''])"

text \<open>How the spec reads a value: asserted-true, asserted-false, or floating.\<close>

definition asserted_true :: "pyval \<Rightarrow> bool" where
  "asserted_true v = (v = PyBool True \<or> v = PyInt 1)"

definition asserted_false :: "pyval \<Rightarrow> bool" where
  "asserted_false v = (v = PyBool False \<or> v = PyInt 0)"

text \<open>What \<open>_inputState\<close> makes of the value of a single source.\<close>

definition resolve :: "pyval \<Rightarrow> pyval" where
  "resolve x =
     (if asserted_true x then PyBool True
      else if asserted_false x then PyBool False
      else PyNone)"

text \<open>
  The surrounding simulation loop reads the two outputs of a flip-flop again and again, in
  some order; an evaluation that fails is no output for that tick, and the loop goes on.
\<close>

datatype pin = OutQ | OutQ_bar

fun read_outputs :: "nat \<Rightarrow> addr \<Rightarrow> pin list \<Rightarrow> heap \<Rightarrow> (error + pyval) list \<times> heap" where
  "read_outputs n self [] h = ([], h)"
| "read_outputs n self (out # outs) h =
     (case (case out of OutQ \<Rightarrow> Q (call n) self h | OutQ_bar \<Rightarrow> Q_bar (call n) self h) of
        (r, h1) \<Rightarrow> (case read_outputs n self outs h1 of (rs, h2) \<Rightarrow> (r # rs, h2)))"

text \<open>
  A call of a source that returns: from the bound \<open>d\<close> on the depth of nested device calls
  upwards, it yields the value \<open>v\<close> and the store \<open>h'\<close>, the same at every bound.
\<close>

definition returns_within :: "nat \<Rightarrow> source \<Rightarrow> heap \<Rightarrow> pyval \<Rightarrow> heap \<Rightarrow> bool" where
  "returns_within d s h v h' = (\<forall>n\<ge>d. call n s h = (Inr v, h'))"

section \<open>Theorems\<close>

subsection \<open>Evaluation lemmas\<close>

lemma call_Thunk: "call n (Thunk v) h = (Inr v, h)"
  by (cases n) simp_all

lemma object_truthy_any: "object_truthy s"
  by (cases s) simp_all

lemma py_count_single: "py_count [x] y = (if py_eq x y then 1 else 0)"
  by (simp add: py_count_def)

lemma inputState_Single:
  "inputState c (Single v) h =
     (case c v h of (Inl e, h1) \<Rightarrow> (Inl e, h1) | (Inr x, h1) \<Rightarrow> (Inr (resolve x), h1))"
proof (cases "c v h")
  case (Pair res h1)
  show ?thesis
  proof (cases res)
    case (Inl e)
    with Pair show ?thesis by (simp add: inputState_def)
  next
    case (Inr x)
    with Pair show ?thesis
      by (cases x)
        (auto simp: inputState_def py_count_single resolve_def asserted_true_def
          asserted_false_def)
  qed
qed

lemma truthy_resolve: "truthy (resolve x) = asserted_true x"
  by (cases x) (auto simp: resolve_def asserted_true_def asserted_false_def)

lemma resolve_eq_None: "py_eq (resolve x) PyNone = (\<not> asserted_true x \<and> \<not> asserted_false x)"
  by (simp add: resolve_def)




lemmas eval_defs =
  device_call_def getvalue_def recursiontrap_def call_attr_def Q_def Q_bar_def
  BoolNOT_handler_def BoolAND_handler_def BoolNOR_handler_def BoolNAND_handler_def
  inputState_Single truthy_resolve call_Thunk object_truthy_any Let_def
  asserted_true_def asserted_false_def

lemmas build_defs =
  heap0_def gate_init_def new_gate_def BoolDevice_init_def BoolSRFF_init_def BoolJKFF_init_def
  BoolSRFF_SetInput_def BoolJKFF_SetInput_def BoolDevice_SetInput_def In_setter_def
  Enable_setter_def and_then_def Let_def numeral_2_eq_2

subsection \<open>The recursion trap\<close>


text \<open>
  C1. A call that finds the device marked in evaluation returns the stored \<open>lastget\<close> and
  clears the mark, whatever the handler is (two handlers give the same outcome, so the
  handler is not consulted). A call that finds the mark clear sets it, runs the handler on
  the marked store, stores the handler's result as \<open>lastget\<close>, clears the mark and returns
  that result.
\<close>

theorem recursiontrap_contract:
  "(ingetvalue (h self) \<longrightarrow>
      recursiontrap handler self h =
        (Inr (lastget (h self)), h(self := (h self)\<lparr>ingetvalue := False\<rparr>)) \<and>
      recursiontrap handler self h = recursiontrap handler' self h) \<and>
   (\<not> ingetvalue (h self) \<longrightarrow>
      handler self (h(self := (h self)\<lparr>ingetvalue := True\<rparr>)) = (Inr r, h2) \<longrightarrow>
      recursiontrap handler self h =
        (Inr r, h2(self := (h2 self)\<lparr>lastget := r, ingetvalue := False\<rparr>)))"
  by (simp add: recursiontrap_def Let_def)

theorem recursiontrap_contract_witness:
  "recursiontrap (BoolNOR_handler (call 0)) 0
     (heap0(0 := (gate_init BoolNOR)\<lparr>ingetvalue := True, lastget := PyBool False\<rparr>)) =
     (Inr (PyBool False),
      heap0(0 := (gate_init BoolNOR)\<lparr>ingetvalue := False, lastget := PyBool False\<rparr>)) \<and>
   recursiontrap (BoolNOR_handler (call 0)) 0 (heap0(0 := gate_init BoolNOR)) =
     (Inr (PyBool True),
      heap0(0 := (gate_init BoolNOR)\<lparr>ingetvalue := False, lastget := PyBool True\<rparr>))"
  using
    recursiontrap_contract [of
      "heap0(0 := (gate_init BoolNOR)\<lparr>ingetvalue := True, lastget := PyBool False\<rparr>)" 0
      "BoolNOR_handler (call 0)" "BoolNOR_handler (call 0)" "PyBool True" heap0]
    recursiontrap_contract [of
      "heap0(0 := gate_init BoolNOR)" 0
      "BoolNOR_handler (call 0)" "BoolNOR_handler (call 0)" "PyBool True"
      "heap0(0 := (gate_init BoolNOR)\<lparr>ingetvalue := True\<rparr>)"]
  by (simp add: eval_defs build_defs)

subsection \<open>Gates\<close>

lemma BoolAND_loop_thunks:
  "BoolAND_loop (call n) (map Thunk vs) h = (Inr (PyBool (\<forall>v\<in>set vs. asserted_true v)), h)"
  by (induction vs) (simp_all add: inputState_Single call_Thunk truthy_resolve)

lemma BoolNAND_loop_thunks:
  "BoolNAND_loop (call n) (map Thunk vs) h =
     (Inr (PyBool (\<not> (\<forall>v\<in>set vs. asserted_true v))), h)"
  by (induction vs) (simp_all add: inputState_Single call_Thunk truthy_resolve)

lemma BoolNOR_loop_thunks:
  "BoolNOR_loop (call n) (map Thunk vs) h =
     (Inr (PyBool (\<not> (\<exists>v\<in>set vs. asserted_true v))), h)"
  by (induction vs) (simp_all add: inputState_Single call_Thunk truthy_resolve)

lemma BoolNOT_handler_thunk:
  "input (h a) = [Thunk v] \<Longrightarrow>
   BoolNOT_handler (call n) a h = (Inr (PyBool (\<not> asserted_true v)), h)"
  by (cases v)
    (auto simp: BoolNOT_handler_def inputState_Single call_Thunk resolve_def
      asserted_true_def asserted_false_def)

lemmas call_gate_defs = device_call_def getvalue_def recursiontrap_def object_truthy_any Let_def

text \<open>The gates on constant sources, with the store they leave.\<close>

lemma gate_truth_tables_constants:
  assumes "\<not> ingetvalue (h a)" and "input (h a) = map Thunk vs"
  shows
    "(cls (h a) = BoolAND \<longrightarrow>
        call (Suc n) (Dev a) h =
          (Inr (PyBool (\<forall>v\<in>set vs. asserted_true v)),
           h(a := (h a)\<lparr>lastget := PyBool (\<forall>v\<in>set vs. asserted_true v),
                          ingetvalue := False\<rparr>))) \<and>
     (cls (h a) = BoolNAND \<longrightarrow>
        call (Suc n) (Dev a) h =
          (Inr (PyBool (\<not> (\<forall>v\<in>set vs. asserted_true v))),
           h(a := (h a)\<lparr>lastget := PyBool (\<not> (\<forall>v\<in>set vs. asserted_true v)),
                          ingetvalue := False\<rparr>))) \<and>
     (cls (h a) = BoolNOR \<longrightarrow>
        call (Suc n) (Dev a) h =
          (Inr (PyBool (\<not> (\<exists>v\<in>set vs. asserted_true v))),
           h(a := (h a)\<lparr>lastget := PyBool (\<not> (\<exists>v\<in>set vs. asserted_true v)),
                          ingetvalue := False\<rparr>))) \<and>
     (cls (h a) = BoolNOT \<longrightarrow> (\<forall>v. vs = [v] \<longrightarrow>
        call (Suc n) (Dev a) h =
          (Inr (PyBool (\<not> asserted_true v)),
           h(a := (h a)\<lparr>lastget := PyBool (\<not> asserted_true v),
                          ingetvalue := False\<rparr>))))"
proof -
  let ?h1 = "h(a := (h a)\<lparr>ingetvalue := True\<rparr>)"
  have inp: "input (?h1 a) = map Thunk vs"
    using assms(2) by simp
  have conj_case: "cls (h a) = BoolAND \<Longrightarrow>
      call (Suc n) (Dev a) h =
        (Inr (PyBool (\<forall>v\<in>set vs. asserted_true v)),
         h(a := (h a)\<lparr>lastget := PyBool (\<forall>v\<in>set vs. asserted_true v),
                          ingetvalue := False\<rparr>))"
    using assms(1) inp
    by (simp add: call_gate_defs BoolAND_handler_def BoolAND_loop_thunks)
  have nand_case: "cls (h a) = BoolNAND \<Longrightarrow>
      call (Suc n) (Dev a) h =
        (Inr (PyBool (\<not> (\<forall>v\<in>set vs. asserted_true v))),
         h(a := (h a)\<lparr>lastget := PyBool (\<not> (\<forall>v\<in>set vs. asserted_true v)),
                          ingetvalue := False\<rparr>))"
    using assms(1) inp
    by (simp add: call_gate_defs BoolNAND_handler_def BoolNAND_loop_thunks)
  have nor_case: "cls (h a) = BoolNOR \<Longrightarrow>
      call (Suc n) (Dev a) h =
        (Inr (PyBool (\<not> (\<exists>v\<in>set vs. asserted_true v))),
         h(a := (h a)\<lparr>lastget := PyBool (\<not> (\<exists>v\<in>set vs. asserted_true v)),
                          ingetvalue := False\<rparr>))"
    using assms(1) inp
    by (simp add: call_gate_defs BoolNOR_handler_def BoolNOR_loop_thunks)
  have not_case: "cls (h a) = BoolNOT \<Longrightarrow> vs = [v] \<Longrightarrow>
      call (Suc n) (Dev a) h =
        (Inr (PyBool (\<not> asserted_true v)),
         h(a := (h a)\<lparr>lastget := PyBool (\<not> asserted_true v),
                          ingetvalue := False\<rparr>))" for v
  proof -
    assume c: "cls (h a) = BoolNOT" and v: "vs = [v]"
    have "input (?h1 a) = [Thunk v]" using inp v by simp
    then have "BoolNOT_handler (call n) a ?h1 = (Inr (PyBool (\<not> asserted_true v)), ?h1)"
      by (rule BoolNOT_handler_thunk)
    then show ?thesis using assms(1) c by (simp add: call_gate_defs)
  qed
  from conj_case nand_case nor_case not_case show ?thesis by blast
qed

lemma BoolAND_loop_sources:
  "call_each invoke ss h = (Inr vs, h') \<Longrightarrow>
   \<exists>h2. BoolAND_loop invoke ss h = (Inr (PyBool (\<forall>v\<in>set vs. asserted_true v)), h2)"
proof (induction ss arbitrary: h vs)
  case Nil
  then show ?case by simp
next
  case (Cons s ss)
  from Cons.prems obtain x h1 xs where
    s: "invoke s h = (Inr x, h1)" and rest: "call_each invoke ss h1 = (Inr xs, h')"
    and vs: "vs = x # xs"
    by (auto split: prod.splits sum.splits)
  from Cons.IH [OF rest] obtain h2 where
    "BoolAND_loop invoke ss h1 = (Inr (PyBool (\<forall>v\<in>set xs. asserted_true v)), h2)"
    by blast
  with s vs show ?case
    by (simp add: inputState_Single truthy_resolve)
qed

lemma BoolNAND_loop_sources:
  "call_each invoke ss h = (Inr vs, h') \<Longrightarrow>
   \<exists>h2. BoolNAND_loop invoke ss h = (Inr (PyBool (\<not> (\<forall>v\<in>set vs. asserted_true v))), h2)"
proof (induction ss arbitrary: h vs)
  case Nil
  then show ?case by simp
next
  case (Cons s ss)
  from Cons.prems obtain x h1 xs where
    s: "invoke s h = (Inr x, h1)" and rest: "call_each invoke ss h1 = (Inr xs, h')"
    and vs: "vs = x # xs"
    by (auto split: prod.splits sum.splits)
  from Cons.IH [OF rest] obtain h2 where
    "BoolNAND_loop invoke ss h1 = (Inr (PyBool (\<not> (\<forall>v\<in>set xs. asserted_true v))), h2)"
    by blast
  with s vs show ?case
    by (simp add: inputState_Single truthy_resolve)
qed

lemma BoolNOR_loop_sources:
  "call_each invoke ss h = (Inr vs, h') \<Longrightarrow>
   \<exists>h2. BoolNOR_loop invoke ss h = (Inr (PyBool (\<not> (\<exists>v\<in>set vs. asserted_true v))), h2)"
proof (induction ss arbitrary: h vs)
  case Nil
  then show ?case by simp
next
  case (Cons s ss)
  from Cons.prems obtain x h1 xs where
    s: "invoke s h = (Inr x, h1)" and rest: "call_each invoke ss h1 = (Inr xs, h')"
    and vs: "vs = x # xs"
    by (auto split: prod.splits sum.splits)
  from Cons.IH [OF rest] obtain h2 where
    "BoolNOR_loop invoke ss h1 = (Inr (PyBool (\<not> (\<exists>v\<in>set xs. asserted_true v))), h2)"
    by blast
  with s vs show ?case
    by (simp add: inputState_Single truthy_resolve)
qed

lemma BoolNOT_handler_sources:
  assumes "call_each invoke (input (h a)) h = (Inr (v # rest), h')"
  shows "\<exists>h2. BoolNOT_handler invoke a h = (Inr (PyBool (\<not> asserted_true v)), h2)"
proof -
  from assms obtain s ss where inp: "input (h a) = s # ss"
    by (cases "input (h a)") auto
  with assms obtain h1 where "invoke s h = (Inr v, h1)"
    by (auto split: prod.splits sum.splits)
  with inp show ?thesis
    by (cases v)
      (auto simp: BoolNOT_handler_def inputState_Single resolve_def asserted_true_def
        asserted_false_def)
qed

lemma recursiontrap_fresh:
  assumes "\<not> ingetvalue (h a)"
    and "handler a (h(a := (h a)\<lparr>ingetvalue := True\<rparr>)) = (Inr r, h2)"
  shows "\<exists>hf. recursiontrap handler a h = (Inr r, hf) \<and> lastget (hf a) = r \<and>
           \<not> ingetvalue (hf a)"
  using assms by (simp add: recursiontrap_def Let_def)

text \<open>
  C8. A gate called while it is not in evaluation, wired with any sources, constants or
  devices. Let \<open>vs\<close> be the values its inputs yield when they are called one after the
  other, in the store where the gate is marked. Then AND returns true iff every value is
  asserted-true; NAND returns false iff every value is asserted-true, else true; NOR
  returns false iff some value is asserted-true, else true; NOT returns the negation of
  its first value, which is true when that value is floating. The list of inputs has any
  length, and the results depend on the set of values only, not on their order. Each call
  stores its result in \<open>lastget\<close> and leaves the mark clear.
\<close>

theorem gate_truth_tables:
  assumes "\<not> ingetvalue (h a)"
    and "call_each invoke (input (h a)) (h(a := (h a)\<lparr>ingetvalue := True\<rparr>)) = (Inr vs, h')"
  shows
    "(cls (h a) = BoolAND \<longrightarrow>
        (\<exists>hf. device_call invoke a h = (Inr (PyBool (\<forall>v\<in>set vs. asserted_true v)), hf) \<and>
              lastget (hf a) = PyBool (\<forall>v\<in>set vs. asserted_true v) \<and>
              \<not> ingetvalue (hf a))) \<and>
     (cls (h a) = BoolNAND \<longrightarrow>
        (\<exists>hf. device_call invoke a h =
                (Inr (PyBool (\<not> (\<forall>v\<in>set vs. asserted_true v))), hf) \<and>
              lastget (hf a) = PyBool (\<not> (\<forall>v\<in>set vs. asserted_true v)) \<and>
              \<not> ingetvalue (hf a))) \<and>
     (cls (h a) = BoolNOR \<longrightarrow>
        (\<exists>hf. device_call invoke a h =
                (Inr (PyBool (\<not> (\<exists>v\<in>set vs. asserted_true v))), hf) \<and>
              lastget (hf a) = PyBool (\<not> (\<exists>v\<in>set vs. asserted_true v)) \<and>
              \<not> ingetvalue (hf a))) \<and>
     (cls (h a) = BoolNOT \<longrightarrow> (\<forall>v rest. vs = v # rest \<longrightarrow>
        (\<exists>hf. device_call invoke a h = (Inr (PyBool (\<not> asserted_true v)), hf) \<and>
              lastget (hf a) = PyBool (\<not> asserted_true v) \<and>
              \<not> ingetvalue (hf a))))"
proof -
  let ?h1 = "h(a := (h a)\<lparr>ingetvalue := True\<rparr>)"
  have inp: "input (?h1 a) = input (h a)" by simp
  have and_case: "\<exists>hf. device_call invoke a h =
        (Inr (PyBool (\<forall>v\<in>set vs. asserted_true v)), hf) \<and>
      lastget (hf a) = PyBool (\<forall>v\<in>set vs. asserted_true v) \<and> \<not> ingetvalue (hf a)"
    if c: "cls (h a) = BoolAND"
  proof -
    obtain h2 where "BoolAND_handler invoke a ?h1 =
        (Inr (PyBool (\<forall>v\<in>set vs. asserted_true v)), h2)"
      using BoolAND_loop_sources [OF assms(2)] inp by (auto simp: BoolAND_handler_def)
    from recursiontrap_fresh [where handler = "BoolAND_handler invoke", OF assms(1) this] show ?thesis
      using c by (simp add: device_call_def getvalue_def object_truthy_any)
  qed
  have nand_case: "\<exists>hf. device_call invoke a h =
        (Inr (PyBool (\<not> (\<forall>v\<in>set vs. asserted_true v))), hf) \<and>
      lastget (hf a) = PyBool (\<not> (\<forall>v\<in>set vs. asserted_true v)) \<and> \<not> ingetvalue (hf a)"
    if c: "cls (h a) = BoolNAND"
  proof -
    obtain h2 where "BoolNAND_handler invoke a ?h1 =
        (Inr (PyBool (\<not> (\<forall>v\<in>set vs. asserted_true v))), h2)"
      using BoolNAND_loop_sources [OF assms(2)] inp by (auto simp: BoolNAND_handler_def)
    from recursiontrap_fresh [where handler = "BoolNAND_handler invoke", OF assms(1) this] show ?thesis
      using c by (simp add: device_call_def getvalue_def object_truthy_any)
  qed
  have nor_case: "\<exists>hf. device_call invoke a h =
        (Inr (PyBool (\<not> (\<exists>v\<in>set vs. asserted_true v))), hf) \<and>
      lastget (hf a) = PyBool (\<not> (\<exists>v\<in>set vs. asserted_true v)) \<and> \<not> ingetvalue (hf a)"
    if c: "cls (h a) = BoolNOR"
  proof -
    obtain h2 where "BoolNOR_handler invoke a ?h1 =
        (Inr (PyBool (\<not> (\<exists>v\<in>set vs. asserted_true v))), h2)"
      using BoolNOR_loop_sources [OF assms(2)] inp by (auto simp: BoolNOR_handler_def)
    from recursiontrap_fresh [where handler = "BoolNOR_handler invoke", OF assms(1) this] show ?thesis
      using c by (simp add: device_call_def getvalue_def object_truthy_any)
  qed
  have not_case: "\<exists>hf. device_call invoke a h = (Inr (PyBool (\<not> asserted_true v)), hf) \<and>
      lastget (hf a) = PyBool (\<not> asserted_true v) \<and> \<not> ingetvalue (hf a)"
    if c: "cls (h a) = BoolNOT" and v: "vs = v # rest" for v rest
  proof -
    have "call_each invoke (input (?h1 a)) ?h1 = (Inr (v # rest), h')"
      using assms(2) v by simp
    from BoolNOT_handler_sources [OF this] obtain h2 where
      "BoolNOT_handler invoke a ?h1 = (Inr (PyBool (\<not> asserted_true v)), h2)"
      by blast
    from recursiontrap_fresh [where handler = "BoolNOT_handler invoke", OF assms(1) this] show ?thesis
      using c by (simp add: device_call_def getvalue_def object_truthy_any)
  qed
  from and_case nand_case nor_case not_case show ?thesis by blast
qed

theorem gate_truth_tables_witness:
  "fst (call 2 (Dev 0)
        (In_setter 0 (Sequence [Callable (Dev 1), Const (PyBool True)])
            (new_gate BoolNOT 1 (new_gate BoolAND 0 heap0)))) =
     Inr (PyBool True) \<and>
   fst (call 2 (Dev 0)
        (In_setter 0 (Sequence [Callable (Dev 1), Const (PyBool True)])
            (new_gate BoolNOT 1 (new_gate BoolNAND 0 heap0)))) =
     Inr (PyBool False) \<and>
   fst (call 2 (Dev 0)
        (In_setter 0 (Sequence [Callable (Dev 1), Const (PyBool True)])
            (new_gate BoolNOT 1 (new_gate BoolNOR 0 heap0)))) =
     Inr (PyBool False) \<and>
   fst (call 2 (Dev 0)
        (In_setter 0 (Single (Callable (Dev 1)))
            (new_gate BoolNOT 1 (new_gate BoolNOT 0 heap0)))) =
     Inr (PyBool False) \<and>
   fst (call 1 (Dev 0) (new_gate BoolNOT 0 heap0)) = Inr (PyBool True)"
  using
    gate_truth_tables [where invoke = "call 1" and a = 0 and vs = "[PyBool True, PyBool True]"
      and h = "In_setter 0 (Sequence [Callable (Dev 1), Const (PyBool True)])
            (new_gate BoolNOT 1 (new_gate BoolAND 0 heap0))"
      and h' = "snd (call_each (call 1)
         (input ((In_setter 0 (Sequence [Callable (Dev 1), Const (PyBool True)])
            (new_gate BoolNOT 1 (new_gate BoolAND 0 heap0))) 0))
         ((In_setter 0 (Sequence [Callable (Dev 1), Const (PyBool True)])
            (new_gate BoolNOT 1 (new_gate BoolAND 0 heap0)))
            (0 := ((In_setter 0 (Sequence [Callable (Dev 1), Const (PyBool True)])
            (new_gate BoolNOT 1 (new_gate BoolAND 0 heap0))) 0)\<lparr>ingetvalue := True\<rparr>)))"]
    gate_truth_tables [where invoke = "call 1" and a = 0 and vs = "[PyBool True, PyBool True]"
      and h = "In_setter 0 (Sequence [Callable (Dev 1), Const (PyBool True)])
            (new_gate BoolNOT 1 (new_gate BoolNAND 0 heap0))"
      and h' = "snd (call_each (call 1)
         (input ((In_setter 0 (Sequence [Callable (Dev 1), Const (PyBool True)])
            (new_gate BoolNOT 1 (new_gate BoolNAND 0 heap0))) 0))
         ((In_setter 0 (Sequence [Callable (Dev 1), Const (PyBool True)])
            (new_gate BoolNOT 1 (new_gate BoolNAND 0 heap0)))
            (0 := ((In_setter 0 (Sequence [Callable (Dev 1), Const (PyBool True)])
            (new_gate BoolNOT 1 (new_gate BoolNAND 0 heap0))) 0)\<lparr>ingetvalue := True\<rparr>)))"]
    gate_truth_tables [where invoke = "call 1" and a = 0 and vs = "[PyBool True, PyBool True]"
      and h = "In_setter 0 (Sequence [Callable (Dev 1), Const (PyBool True)])
            (new_gate BoolNOT 1 (new_gate BoolNOR 0 heap0))"
      and h' = "snd (call_each (call 1)
         (input ((In_setter 0 (Sequence [Callable (Dev 1), Const (PyBool True)])
            (new_gate BoolNOT 1 (new_gate BoolNOR 0 heap0))) 0))
         ((In_setter 0 (Sequence [Callable (Dev 1), Const (PyBool True)])
            (new_gate BoolNOT 1 (new_gate BoolNOR 0 heap0)))
            (0 := ((In_setter 0 (Sequence [Callable (Dev 1), Const (PyBool True)])
            (new_gate BoolNOT 1 (new_gate BoolNOR 0 heap0))) 0)\<lparr>ingetvalue := True\<rparr>)))"]
    gate_truth_tables [where invoke = "call 1" and a = 0 and vs = "[PyBool True]"
      and h = "In_setter 0 (Single (Callable (Dev 1)))
            (new_gate BoolNOT 1 (new_gate BoolNOT 0 heap0))"
      and h' = "snd (call_each (call 1)
         (input ((In_setter 0 (Single (Callable (Dev 1)))
            (new_gate BoolNOT 1 (new_gate BoolNOT 0 heap0))) 0))
         ((In_setter 0 (Single (Callable (Dev 1)))
            (new_gate BoolNOT 1 (new_gate BoolNOT 0 heap0)))
            (0 := ((In_setter 0 (Single (Callable (Dev 1)))
            (new_gate BoolNOT 1 (new_gate BoolNOT 0 heap0))) 0)\<lparr>ingetvalue := True\<rparr>)))"]
    gate_truth_tables [where invoke = "call 0" and a = 0 and vs = "[PyNone]"
      and h = "new_gate BoolNOT 0 heap0"
      and h' = "(new_gate BoolNOT 0 heap0)
         (0 := ((new_gate BoolNOT 0 heap0) 0)\<lparr>ingetvalue := True\<rparr>)"]
  by (simp add: eval_defs build_defs resolve_def)

subsection \<open>Fresh devices\<close>

lemma map_of_constant:
  "name \<in> set names \<Longrightarrow> map_of (map (\<lambda>k. (k, x)) names) name = Some x"
  by (induction names) auto

lemma inputState_floating_thunk:
  "inputState (call n) (Single (Thunk PyNone)) h = (Inr PyNone, h)"
  by (simp add: inputState_Single call_Thunk resolve_def asserted_true_def asserted_false_def)

text \<open>
  C10. In a device fresh from \<open>_BoolDevice.__init__\<close>, every declared input name is bound
  to a constant floating source, so \<open>GetInput\<close> returns floating for it; and there are
  \<open>mininputqty\<close> positional inputs, each a source that resolves to floating.
\<close>

theorem fresh_device_floating:
  "(\<forall>name\<in>set namedinputs.
      indict (BoolDevice_init c m namedinputs) name = Some (Thunk PyNone) \<and>
      GetInput (call n) self name (h(self := BoolDevice_init c m namedinputs)) =
        (Inr PyNone, h(self := BoolDevice_init c m namedinputs))) \<and>
   length (input (BoolDevice_init c m namedinputs)) = m \<and>
   (\<forall>v\<in>set (input (BoolDevice_init c m namedinputs)).
      v = Thunk PyNone \<and> inputState (call n) (Single v) h' = (Inr PyNone, h'))"
proof (intro conjI ballI)
  fix name assume "name \<in> set namedinputs"
  then show bound: "indict (BoolDevice_init c m namedinputs) name = Some (Thunk PyNone)"
    by (simp add: BoolDevice_init_def map_of_constant)
  then show "GetInput (call n) self name (h(self := BoolDevice_init c m namedinputs)) =
      (Inr PyNone, h(self := BoolDevice_init c m namedinputs))"
    by (simp add: GetInput_def inputState_floating_thunk)
next
  show "length (input (BoolDevice_init c m namedinputs)) = m"
    by (simp add: BoolDevice_init_def)
next
  fix v assume "v \<in> set (input (BoolDevice_init c m namedinputs))"
  then show "v = Thunk PyNone"
    by (auto simp: BoolDevice_init_def)
next
  fix v assume "v \<in> set (input (BoolDevice_init c m namedinputs))"
  then have "v = Thunk PyNone"
    by (auto simp: BoolDevice_init_def)
  then show "inputState (call n) (Single v) h' = (Inr PyNone, h')"
    by (simp add: inputState_floating_thunk)
qed

theorem fresh_device_floating_witness:
  "GetInput (call 0) 0 ''R'' (heap0(0 := BoolDevice_init BoolSRFF 1 [''R'', ''S''])) =
     (Inr PyNone, heap0(0 := BoolDevice_init BoolSRFF 1 [''R'', ''S''])) \<and>
   GetInput (call 0) 0 ''S'' (heap0(0 := BoolDevice_init BoolSRFF 1 [''R'', ''S''])) =
     (Inr PyNone, heap0(0 := BoolDevice_init BoolSRFF 1 [''R'', ''S''])) \<and>
   input (BoolDevice_init BoolSRFF 1 [''R'', ''S'']) = [Thunk PyNone] \<and>
   inputState (call 0) (Single (Thunk PyNone)) heap0 = (Inr PyNone, heap0)"
  using fresh_device_floating [where namedinputs = "[''R'', ''S'']" and n = 0 and self = 0
      and h = heap0 and c = BoolSRFF and m = 1 and h' = heap0]
  by (simp add: BoolDevice_init_def)

subsection \<open>Arity\<close>

text \<open>
  C9, as the code has it. A device fresh from its constructor has exactly the minimum
  number of inputs of its class. The setter of \<open>In\<close> checks no arity: after it the device
  has as many inputs as the sequence had elements, or one for a value that is no sequence;
  it has no way to fail.
\<close>

theorem inputs_length:
  "length (input (gate_init c)) = mininputqty c \<and>
   length (input (BoolDevice_init c m namedinputs)) = m \<and>
   length (input (In_setter self (Sequence vs) h self)) = length vs \<and>
   length (input (In_setter self (Single v) h self)) = 1"
  by (simp add: gate_init_def BoolDevice_init_def In_setter_def)

text \<open>
  An AND gate rewired with the empty sequence has no input at all, fewer than the two its
  class declares.
\<close>

theorem arity_counterexample:
  "length (input (In_setter 0 (Sequence []) (heap0(0 := gate_init BoolAND)) 0)) <
     mininputqty (cls (In_setter 0 (Sequence []) (heap0(0 := gate_init BoolAND)) 0))"
  by (simp add: build_defs)

subsection \<open>Enable\<close>

lemma device_call_is_getvalue: "device_call invoke self h = getvalue invoke self h"
  by (simp add: device_call_def object_truthy_any)

text \<open>
  C4 at a failing input: a NOT gate with \<open>Enable = False\<close>. \<open>__call__\<close> tests the closure
  that \<open>Eval\<close> made of \<open>False\<close>, which is true as any function object is, runs
  \<open>_getvalue\<close> and returns \<open>True\<close>, the NOT of the floating input, where the claim has
  floating.
\<close>

theorem Enable_False_not_floating:
  "enable (Enable_setter 0 (Const (PyBool False)) (heap0(0 := gate_init BoolNOT)) 0) =
     Thunk (PyBool False) \<and>
   fst (call 1 (Dev 0) (Enable_setter 0 (Const (PyBool False)) (heap0(0 := gate_init BoolNOT)))) =
     Inr (PyBool True)"
  by (simp add: eval_defs build_defs resolve_def)

subsection \<open>The resolver on a sequence\<close>

text \<open>
  C5 at two failing inputs: the resolver applied to the sequence of a true and a false
  source, and to the sequence of one floating source. Both raise \<open>TypeError\<close>, where the
  claim has the conflict error (\<open>ValueError\<close>) for the first and floating for the second.
\<close>

theorem inputState_sequence_TypeError:
  "inputState (call 0) (Sequence [Thunk (PyBool True), Thunk (PyBool False)]) heap0 =
     (Inl TypeError, heap0) \<and>
   inputState (call 0) (Sequence [Thunk PyNone]) heap0 = (Inl TypeError, heap0)"
  by (simp add: inputState_def)

subsection \<open>JK flip-flop\<close>

text \<open>
  C7 at a failing input: a fresh JK flip-flop whose J, K and CLK are set to the constant
  true, one after the other. No call raises and the three names are bound, as the claim
  says. After the third call, with all three inputs non-floating, \<open>ICJ\<close> and \<open>ICK\<close>
  still have their two floating placeholders, where the claim has them driven by \<open>IC2\<close>,
  J, CLK and by \<open>IC1\<close>, K, CLK.
\<close>

theorem BoolJKFF_never_rewired:
  "(case and_then (BoolJKFF_SetInput (call 0) 0 ''J'' (Const (PyBool True)))
      (and_then (BoolJKFF_SetInput (call 0) 0 ''K'' (Const (PyBool True)))
         (BoolJKFF_SetInput (call 0) 0 ''CLK'' (Const (PyBool True))))
      (BoolJKFF_init 0 1 2 3 4 heap0) of
      (r, h) \<Rightarrow>
        r = Inr () \<and>
        indict (h 0) ''J'' = Some (Thunk (PyBool True)) \<and>
        indict (h 0) ''K'' = Some (Thunk (PyBool True)) \<and>
        indict (h 0) ''CLK'' = Some (Thunk (PyBool True)) \<and>
        ICJ (h 0) = Some 3 \<and> ICK (h 0) = Some 4 \<and>
        input (h 3) = [Thunk PyNone, Thunk PyNone] \<and>
        input (h 4) = [Thunk PyNone, Thunk PyNone] \<and>
        input (h 3) \<noteq> [Dev 2, Thunk (PyBool True), Thunk (PyBool True)] \<and>
        input (h 4) \<noteq> [Dev 1, Thunk (PyBool True), Thunk (PyBool True)])"
  by (simp add: build_defs call_Thunk)

subsection \<open>The SR latch\<close>







lemma returns_within_mono:
  "returns_within d s h v h' \<Longrightarrow> d \<le> d' \<Longrightarrow> returns_within d' s h v h'"
  by (simp add: returns_within_def)

lemma returns_within_Thunk: "returns_within d (Thunk v) h v h"
  by (simp add: returns_within_def call_Thunk)

lemma returns_within_reentrant:
  assumes "ingetvalue (h x)" and "cls (h x) \<in> {BoolAND, BoolNOR, BoolNAND}"
  shows "returns_within 1 (Dev x) h (lastget (h x)) (h(x := (h x)\<lparr>ingetvalue := False\<rparr>))"
  unfolding returns_within_def
proof (intro allI impI)
  fix n :: nat assume "1 \<le> n"
  then obtain m where "n = Suc m" by (cases n) simp_all
  then show "call n (Dev x) h = (Inr (lastget (h x)), h(x := (h x)\<lparr>ingetvalue := False\<rparr>))"
    using assms by (auto simp: device_call_def getvalue_def recursiontrap_def object_truthy_any Let_def)
qed

lemmas gate_unfold =
  device_call_def getvalue_def recursiontrap_def object_truthy_any
  BoolAND_handler_def BoolNOR_handler_def BoolNAND_handler_def inputState_Single Let_def

lemma gate_pair_value:
  assumes "\<not> ingetvalue (h x)" and "cls (h x) \<in> {BoolAND, BoolNOR, BoolNAND}"
    and "input (h x) = [r, t]"
    and "invoke r (h(x := (h x)\<lparr>ingetvalue := True\<rparr>)) = (Inr vr, h2)"
    and "invoke t h2 = (Inr vt, h3)"
  shows "\<exists>v. fst (device_call invoke x h) = Inr v"
proof -
  from assms(2) consider "cls (h x) = BoolAND" | "cls (h x) = BoolNOR" | "cls (h x) = BoolNAND"
    by auto
  then show ?thesis
  proof cases
    case 1
    then show ?thesis using assms(1,3,4,5) by (simp add: gate_unfold)
  next
    case 2
    then show ?thesis using assms(1,3,4,5) by (simp add: gate_unfold)
  next
    case 3
    then show ?thesis using assms(1,3,4,5) by (simp add: gate_unfold)
  qed
qed

lemma gate_pair_same:
  assumes "\<not> ingetvalue (h x)" and "cls (h x) \<in> {BoolAND, BoolNOR, BoolNAND}"
    and "input (h x) = [r, t]"
    and "invoke r (h(x := (h x)\<lparr>ingetvalue := True\<rparr>)) = (Inr vr, h2)"
    and "invoke t h2 = (Inr vt, h3)"
    and "invoke' r (h(x := (h x)\<lparr>ingetvalue := True\<rparr>)) = (Inr vr, h2)"
    and "invoke' t h2 = (Inr vt, h3)"
  shows "device_call invoke x h = device_call invoke' x h"
proof -
  from assms(2) consider "cls (h x) = BoolAND" | "cls (h x) = BoolNOR" | "cls (h x) = BoolNAND"
    by auto
  then show ?thesis
  proof cases
    case 1
    then show ?thesis using assms(1,3,4,5,6,7) by (simp add: gate_unfold)
  next
    case 2
    then show ?thesis using assms(1,3,4,5,6,7) by (simp add: gate_unfold)
  next
    case 3
    then show ?thesis using assms(1,3,4,5,6,7) by (simp add: gate_unfold)
  qed
qed

lemma returns_within_gate:
  assumes "\<not> ingetvalue (h x)" and "cls (h x) \<in> {BoolAND, BoolNOR, BoolNAND}"
    and "input (h x) = [r, t]"
    and r: "returns_within D r (h(x := (h x)\<lparr>ingetvalue := True\<rparr>)) vr h2"
    and t: "returns_within D t h2 vt h3"
  shows "\<exists>v h'. returns_within (Suc D) (Dev x) h v h'"
proof -
  let ?h1 = "h(x := (h x)\<lparr>ingetvalue := True\<rparr>)"
  have rD: "call D r ?h1 = (Inr vr, h2)" and tD: "call D t h2 = (Inr vt, h3)"
    using r t by (simp_all add: returns_within_def)
  from gate_pair_value [OF assms(1-3) rD tD] obtain v where
    v: "fst (device_call (call D) x h) = Inr v"
    by blast
  define h' where "h' = snd (device_call (call D) x h)"
  have at_D: "device_call (call D) x h = (Inr v, h')"
    using v by (simp add: h'_def prod_eq_iff)
  have "returns_within (Suc D) (Dev x) h v h'"
    unfolding returns_within_def
  proof (intro allI impI)
    fix n assume "Suc D \<le> n"
    then obtain m where n: "n = Suc m" and "D \<le> m" by (cases n) simp_all
    then have rm: "call m r ?h1 = (Inr vr, h2)" and tm: "call m t h2 = (Inr vt, h3)"
      using r t by (simp_all add: returns_within_def)
    have "device_call (call m) x h = device_call (call D) x h"
      by (rule gate_pair_same [OF assms(1-3) rm tm rD tD])
    then show "call n (Dev x) h = (Inr v, h')"
      using at_D n by simp
  qed
  then show ?thesis by blast
qed

lemma pair_returns:
  assumes "x \<noteq> y"
    and cx: "cls (h x) \<in> {BoolAND, BoolNOR, BoolNAND}"
    and cy: "cls (h y) \<in> {BoolAND, BoolNOR, BoolNAND}"
    and wx: "input (h x) = [r, Dev y]"
    and wy: "input (h y) = [s, Dev x]"
    and inv: "I h"
    and stable: "\<And>h' z dv. I h' \<Longrightarrow> z = x \<or> z = y \<Longrightarrow> I (h'(z := dv))"
    and ext_r: "\<And>h'. I h' \<Longrightarrow>
        \<exists>v h''. returns_within d r h' v h'' \<and> I h'' \<and> h'' x = h' x \<and> h'' y = h' y"
    and ext_s: "\<And>h'. I h' \<Longrightarrow>
        \<exists>v h''. returns_within d s h' v h'' \<and> I h'' \<and> h'' x = h' x \<and> h'' y = h' y"
  shows "\<exists>v h'. returns_within (d + 3) (Dev x) h v h'"
proof (cases "ingetvalue (h x)")
  case True
  from returns_within_reentrant [of h x, OF True cx] have
    "returns_within (d + 3) (Dev x) h (lastget (h x)) (h(x := (h x)\<lparr>ingetvalue := False\<rparr>))"
    by (rule returns_within_mono) simp
  then show ?thesis by blast
next
  case False
  let ?h1 = "h(x := (h x)\<lparr>ingetvalue := True\<rparr>)"
  have "I ?h1" using inv stable by simp
  from ext_r [OF this] obtain vr h2 where
    r: "returns_within d r ?h1 vr h2" and i2: "I h2"
    and x2: "h2 x = ?h1 x" and y2: "h2 y = ?h1 y"
    by blast
  have y2': "h2 y = h y" using y2 \<open>x \<noteq> y\<close> by simp
  have x2': "h2 x = (h x)\<lparr>ingetvalue := True\<rparr>" using x2 by simp
  have other: "\<exists>v h'. returns_within (d + 2) (Dev y) h2 v h'"
  proof (cases "ingetvalue (h y)")
    case True
    then have "ingetvalue (h2 y)" and "cls (h2 y) \<in> {BoolAND, BoolNOR, BoolNAND}"
      using y2' cy by simp_all
    from returns_within_reentrant [of h2 y, OF this] have
      "returns_within (d + 2) (Dev y) h2 (lastget (h2 y))
         (h2(y := (h2 y)\<lparr>ingetvalue := False\<rparr>))"
      by (rule returns_within_mono) simp
    then show ?thesis by blast
  next
    case False
    let ?h3 = "h2(y := (h2 y)\<lparr>ingetvalue := True\<rparr>)"
    have "I ?h3" using i2 stable by simp
    from ext_s [OF this] obtain vs h4 where
      s: "returns_within d s ?h3 vs h4" and x4: "h4 x = ?h3 x"
      by blast
    have x4': "h4 x = (h x)\<lparr>ingetvalue := True\<rparr>"
      using x4 x2' \<open>x \<noteq> y\<close> by simp
    then have "ingetvalue (h4 x)" and "cls (h4 x) \<in> {BoolAND, BoolNOR, BoolNAND}"
      using cx by simp_all
    from returns_within_reentrant [of h4 x, OF this] have
      back_x: "returns_within (d + 1) (Dev x) h4 (lastget (h4 x))
          (h4(x := (h4 x)\<lparr>ingetvalue := False\<rparr>))"
      by (rule returns_within_mono) simp
    have s': "returns_within (d + 1) s ?h3 vs h4"
      using s by (rule returns_within_mono) simp
    have "\<not> ingetvalue (h2 y)" and "cls (h2 y) \<in> {BoolAND, BoolNOR, BoolNAND}"
      and "input (h2 y) = [s, Dev x]"
      using False y2' cy wy by simp_all
    from returns_within_gate [OF this s' back_x] show ?thesis by simp
  qed
  then obtain vy h3 where y: "returns_within (d + 2) (Dev y) h2 vy h3" by blast
  have r': "returns_within (d + 2) r ?h1 vr h2"
    using r by (rule returns_within_mono) simp
  from returns_within_gate [OF False cx wx r' y] show ?thesis
    by (simp add: numeral_3_eq_3)
qed

text \<open>With constants bound to R and S three nested device calls are enough.\<close>

lemma pair_returns_constants:
  assumes "x \<noteq> y"
    and "cls (h x) \<in> {BoolAND, BoolNOR, BoolNAND}"
    and "cls (h y) \<in> {BoolAND, BoolNOR, BoolNAND}"
    and "input (h x) = [Thunk r, Dev y]"
    and "input (h y) = [Thunk s, Dev x]"
  shows "\<exists>v h'. returns_within 3 (Dev x) h v h'"
proof -
  have "\<exists>v h'. returns_within (0 + 3) (Dev x) h v h'"
    using assms
  proof (rule pair_returns [where I = "\<lambda>_. True"])
    show "\<exists>v h''. returns_within 0 (Thunk r) h' v h'' \<and> True \<and> h'' x = h' x \<and> h'' y = h' y"
      for h'
      using returns_within_Thunk [of 0 r h'] by blast
    show "\<exists>v h''. returns_within 0 (Thunk s) h' v h'' \<and> True \<and> h'' x = h' x \<and> h'' y = h' y"
      for h'
      using returns_within_Thunk [of 0 s h'] by blast
  qed simp_all
  then show ?thesis by simp
qed









text \<open>
  C3. An SR latch of NOR gates with both guards clear, whatever its gates cached before;
  a latch fresh from its constructor with the default gate class is one. After
  \<open>SetInput('S', True)\<close> and \<open>SetInput('R', False)\<close>, \<open>Q()\<close> returns true and \<open>Q_()\<close>
  returns false; after \<open>SetInput('S', False)\<close> and \<open>SetInput('R', True)\<close>, \<open>Q()\<close> returns
  false and \<open>Q_()\<close> returns true. Either output may be read first.
\<close>

theorem SR_latch_set_reset:
  assumes "a \<noteq> a1" and "a \<noteq> a2" and "a1 \<noteq> a2"
    and "cls (h a) = BoolSRFF" and "IC1 (h a) = Some a1" and "IC2 (h a) = Some a2"
    and "cls (h a1) = BoolNOR" and "cls (h a2) = BoolNOR"
    and "\<not> ingetvalue (h a1)" and "\<not> ingetvalue (h a2)"
    and "2 \<le> n"
  shows
    "(\<exists>hs. and_then (BoolSRFF_SetInput a ''S'' (Const (PyBool True)))
              (BoolSRFF_SetInput a ''R'' (Const (PyBool False))) h = (Inr (), hs) \<and>
        fst (read_outputs n a [OutQ, OutQ_bar] hs) = [Inr (PyBool True), Inr (PyBool False)] \<and>
        fst (read_outputs n a [OutQ_bar, OutQ] hs) = [Inr (PyBool False), Inr (PyBool True)]) \<and>
     (\<exists>hs. and_then (BoolSRFF_SetInput a ''S'' (Const (PyBool False)))
              (BoolSRFF_SetInput a ''R'' (Const (PyBool True))) h = (Inr (), hs) \<and>
        fst (read_outputs n a [OutQ, OutQ_bar] hs) = [Inr (PyBool False), Inr (PyBool True)] \<and>
        fst (read_outputs n a [OutQ_bar, OutQ] hs) = [Inr (PyBool True), Inr (PyBool False)])"
proof -
  obtain k where n: "n = Suc (Suc k)"
    using \<open>2 \<le> n\<close> by (metis add_2_eq_Suc le_Suc_ex)
  show ?thesis
    using assms(1-10) unfolding n
    by (simp add: eval_defs build_defs)
qed

theorem SR_latch_set_reset_witness:
  "fst (read_outputs 2 0 [OutQ, OutQ_bar]
     (snd (and_then (BoolSRFF_SetInput 0 ''S'' (Const (PyBool True)))
             (BoolSRFF_SetInput 0 ''R'' (Const (PyBool False)))
             (BoolSRFF_init 0 1 2 None heap0)))) = [Inr (PyBool True), Inr (PyBool False)] \<and>
   fst (read_outputs 2 0 [OutQ, OutQ_bar]
     (snd (and_then (BoolSRFF_SetInput 0 ''S'' (Const (PyBool False)))
             (BoolSRFF_SetInput 0 ''R'' (Const (PyBool True)))
             (BoolSRFF_init 0 1 2 None heap0)))) = [Inr (PyBool False), Inr (PyBool True)]"
proof -
  let ?h = "BoolSRFF_init 0 1 2 None heap0"
  have "(0::nat) \<noteq> 1" and "(0::nat) \<noteq> 2" and "(1::nat) \<noteq> 2" and "(2::nat) \<le> 2"
    by simp_all
  moreover have "cls (?h 0) = BoolSRFF" and "IC1 (?h 0) = Some 1" and "IC2 (?h 0) = Some 2"
    by (simp_all add: build_defs)
  moreover have "cls (?h 1) = BoolNOR" and "cls (?h 2) = BoolNOR"
    by (simp_all add: build_defs)
  moreover have "\<not> ingetvalue (?h 1)" and "\<not> ingetvalue (?h 2)"
    by (simp_all add: build_defs)
  ultimately show ?thesis
    using SR_latch_set_reset [of 0 1 2 ?h 2] by auto
qed

end
